theory Spec2Isabelle
  imports Main "HOL-Library.Char_ord" "HOL-Library.List_Lexorder" "HOL-Library.Sublist"
    "HOL-Library.Multiset"
begin

section \<open>Python string operations used by the program\<close>

text \<open>
  Item names, categories and cache keys are Python \<open>str\<close> values. They are modelled as
  \<open>string\<close> (a list of 8-bit characters) read as ASCII text: the whitespace and the
  case mapping below are those of Python on code points below 128, and a character from
  128 upwards is taken as neither whitespace nor a cased letter.
\<close>

definition py_isspace :: "char \<Rightarrow> bool" where
  \<comment> \<open>\<open>str.isspace\<close> on one ASCII character: tab, LF, VT, FF, CR (9 to 13), FS, GS, RS,
      US and space (28 to 32).\<close>
  "py_isspace c = (let n = (of_char c :: nat) in (9 \<le> n \<and> n \<le> 13) \<or> (28 \<le> n \<and> n \<le> 32))"

definition is_upper :: "char \<Rightarrow> bool" where
  \<comment> \<open>\<open>A\<close> to \<open>Z\<close>\<close>
  "is_upper c = (65 \<le> (of_char c :: nat) \<and> (of_char c :: nat) \<le> 90)"

definition is_lower :: "char \<Rightarrow> bool" where
  \<comment> \<open>\<open>a\<close> to \<open>z\<close>\<close>
  "is_lower c = (97 \<le> (of_char c :: nat) \<and> (of_char c :: nat) \<le> 122)"

definition lower_char :: "char \<Rightarrow> char" where
  "lower_char c = (if is_upper c then char_of (of_char c + 32 :: nat) else c)"

definition upper_char :: "char \<Rightarrow> char" where
  "upper_char c = (if is_lower c then char_of (of_char c - 32 :: nat) else c)"

definition is_cased :: "char \<Rightarrow> bool" where
  "is_cased c = (is_upper c \<or> is_lower c)"

definition py_strip :: "string \<Rightarrow> string" where
  \<comment> \<open>\<open>s.strip()\<close>: leading and trailing whitespace removed.\<close>
  "py_strip s = rev (dropWhile py_isspace (rev (dropWhile py_isspace s)))"

definition py_lower :: "string \<Rightarrow> string" where
  "py_lower s = map lower_char s"

fun title_from :: "bool \<Rightarrow> string \<Rightarrow> string" where
  \<comment> \<open>\<open>s.title()\<close>: a letter that follows a cased letter is lowered, any other is raised.\<close>
  "title_from previous_is_cased [] = []"
| "title_from previous_is_cased (c # cs) =
     (if previous_is_cased then lower_char c else upper_char c) # title_from (is_cased c) cs"

definition py_title :: "string \<Rightarrow> string" where
  "py_title s = title_from False s"

fun split_from :: "string \<Rightarrow> string \<Rightarrow> string list" where
  \<comment> \<open>\<open>s.split()\<close>: the maximal runs of non-whitespace; the first argument is the run being read.\<close>
  "split_from w [] = (if w = [] then [] else [w])"
| "split_from w (c # cs) =
     (if py_isspace c then (if w = [] then split_from [] cs else w # split_from [] cs)
      else split_from (w @ [c]) cs)"

definition py_split :: "string \<Rightarrow> string list" where
  "py_split s = split_from [] s"

fun py_join :: "string \<Rightarrow> string list \<Rightarrow> string" where
  "py_join sep [] = []"
| "py_join sep [x] = x"
| "py_join sep (x # y # ys) = x @ sep @ py_join sep (y # ys)"

fun py_in :: "string \<Rightarrow> string \<Rightarrow> bool" where
  \<comment> \<open>\<open>kw in s\<close> on strings: \<open>kw\<close> occurs in \<open>s\<close> as a contiguous substring.\<close>
  "py_in kw [] = (kw = [])"
| "py_in kw (c # cs) = (prefix kw (c # cs) \<or> py_in kw cs)"

section \<open>The item cache (db.py)\<close>

text \<open>
  Table \<open>item_cache\<close> has the primary key \<open>item\<close> and the columns \<open>category\<close>,
  \<open>normalized_name\<close> and \<open>source\<close>, so it is a map from the key to a record of the
  other three. Column \<open>created_at\<close> is never read by the program and is left out.
\<close>

record cache_row =
  category :: string
  normalized_name :: string
  source :: string

type_synonym cache_table = "string \<rightharpoonup> cache_row"

definition normalize_item_key :: "string \<Rightarrow> string" where
  "normalize_item_key item = py_lower (py_strip item)"

definition get_cached_item :: "cache_table \<Rightarrow> string \<Rightarrow> cache_row option" where
  "get_cached_item cache item = cache item"

definition cache_item :: "cache_table \<Rightarrow> string \<Rightarrow> string \<Rightarrow> string \<Rightarrow> string \<Rightarrow> cache_table" where
  \<comment> \<open>The upsert of \<open>cache_item\<close>: a new key is inserted; on a conflict on \<open>item\<close> the
      \<open>DO UPDATE\<close> clause runs, and only where the stored source is not \<open>manual\<close>.\<close>
  "cache_item cache item cat norm src =
     (let k = normalize_item_key item;
          new = \<lparr>category = cat, normalized_name = norm, source = src\<rparr>
      in case cache k of
           None \<Rightarrow> cache(k \<mapsto> new)
         | Some old \<Rightarrow> if source old \<noteq> ''manual'' then cache(k \<mapsto> new) else cache)"

definition override_item :: "cache_table \<Rightarrow> string \<Rightarrow> string \<Rightarrow> string \<Rightarrow> cache_table" where
  \<comment> \<open>\<open>INSERT OR REPLACE\<close> with no condition: the row for the key is replaced.\<close>
  "override_item cache item cat norm =
     cache(normalize_item_key item \<mapsto> \<lparr>category = cat, normalized_name = norm, source = ''manual''\<rparr>)"

section \<open>The classifier (organize.py)\<close>

subsection \<open>Values and errors\<close>

datatype py_error = AttributeError | TypeError | ValueError | RecursionError

text \<open>
  What \<open>json.loads\<close> returns. A number is kept as an integer: the program only tests a
  number for truth, so a float stands for any integer that is zero exactly when it is.
  A dictionary is the list of its entries, read with \<open>map_of\<close>.
\<close>

datatype json = JNull | JBool bool | JNum int | JStr string | JList "json list"
  | JDict "(string \<times> json) list"

fun truthy :: "json \<Rightarrow> bool" where
  "truthy JNull = False"
| "truthy (JBool b) = b"
| "truthy (JNum n) = (n \<noteq> 0)"
| "truthy (JStr s) = (s \<noteq> [])"
| "truthy (JList xs) = (xs \<noteq> [])"
| "truthy (JDict kvs) = (kvs \<noteq> [])"

fun py_get :: "json \<Rightarrow> string \<Rightarrow> py_error + json" where
  \<comment> \<open>\<open>d.get(key)\<close>: only a dictionary has the method; a missing key gives \<open>None\<close>.\<close>
  "py_get (JDict kvs) key = Inr (case map_of kvs key of Some v \<Rightarrow> v | None \<Rightarrow> JNull)"
| "py_get _ key = Inl AttributeError"

subsection \<open>The process environment, the remote model and the JSON library\<close>

text \<open>
  The remote model is outside the program. \<open>genai_installed\<close> says whether
  \<open>from google import genai\<close> succeeds. \<open>genai rt n model prompt\<close> is what the client does
  with a request when \<open>n\<close> requests have been made before: it answers (with a text, or
  with none), or it raises, with the library's \<open>ClientError\<close> or with another exception.
  \<open>json_loads\<close> is the library's parser: it returns a value, raises \<open>JSONDecodeError\<close>,
  or raises another error (\<open>ValueError\<close> on an integer of too many digits,
  \<open>RecursionError\<close> on deep nesting).
\<close>

datatype genai_outcome = Responds "string option" | RaisesClientError | RaisesOther

datatype loads_outcome = Loaded json | JSONDecodeError | Raises py_error

record runtime =
  environ :: "string \<rightharpoonup> string"
  genai_installed :: bool
  genai :: "nat \<Rightarrow> string \<Rightarrow> string \<Rightarrow> genai_outcome"
  json_loads :: "string \<Rightarrow> loads_outcome"

type_synonym call_log = "(string \<times> string) list"

definition getenv :: "runtime \<Rightarrow> string \<Rightarrow> string option" where
  "getenv rt name = environ rt name"

definition getenv_default :: "runtime \<Rightarrow> string \<Rightarrow> string \<Rightarrow> string" where
  "getenv_default rt name dflt = (case environ rt name of Some v \<Rightarrow> v | None \<Rightarrow> dflt)"

definition call_llm :: "runtime \<Rightarrow> call_log \<Rightarrow> string \<Rightarrow> string \<Rightarrow> (string \<times> string option) \<times> call_log" where
  \<comment> \<open>\<open>_call_llm\<close>: the status and the response text. Without the library it returns
      before any client exists and the log stays as it is; otherwise the client is built
      and asked, and the attempt is added to the log of (model, prompt) pairs, whether it
      answers or raises.\<close>
  "call_llm rt log model prompt =
     (if \<not> genai_installed rt then ((''NO_CLIENT'', Some []), log)
      else
        ((case genai rt (length log) model prompt of
            Responds text \<Rightarrow> (''OK'', text)
          | RaisesClientError \<Rightarrow> (''RESOURCE_EXHAUSTED'', Some [])
          | RaisesOther \<Rightarrow> (''EXCEPTION'', Some [])),
         log @ [(model, prompt)]))"

subsection \<open>Reading the response\<close>

fun find_after :: "string \<Rightarrow> string \<Rightarrow> string option" where
  \<comment> \<open>The text that follows the leftmost occurrence of \<open>pat\<close>.\<close>
  "find_after pat [] = (if pat = [] then Some [] else None)"
| "find_after pat (c # cs) =
     (if prefix pat (c # cs) then Some (drop (length pat) (c # cs)) else find_after pat cs)"

fun take_until :: "string \<Rightarrow> string \<Rightarrow> string option" where
  \<comment> \<open>The shortest text that is followed by \<open>pat\<close>: the lazy group \<open>(.*?)\<close>.\<close>
  "take_until pat [] = (if pat = [] then Some [] else None)"
| "take_until pat (c # cs) =
     (if prefix pat (c # cs) then Some [] else map_option ((#) c) (take_until pat cs))"

definition fenced_json :: "string \<Rightarrow> string option" where
  \<comment> \<open>\<open>re.search\<close> for a fence opened by three backquotes, \<open>json\<close> and a newline and
      closed by three backquotes, with \<open>DOTALL\<close>; the result is group 1.\<close>
  "fenced_json text =
     (case find_after ''```json\<newline>'' text of
        None \<Rightarrow> None
      | Some rest \<Rightarrow> take_until ''```'' rest)"

definition parse_dict_from_ai_response :: "runtime \<Rightarrow> string option \<Rightarrow> py_error + json option" where
  \<comment> \<open>\<open>re.search\<close> raises \<open>TypeError\<close> on a text that is \<open>None\<close>. Of the errors of
      \<open>json.loads\<close> only \<open>JSONDecodeError\<close> is caught; any other goes on to the caller.\<close>
  "parse_dict_from_ai_response rt response_text =
     (case response_text of
        None \<Rightarrow> Inl TypeError
      | Some text \<Rightarrow>
          (case fenced_json text of
             None \<Rightarrow> Inr None
           | Some json_string \<Rightarrow>
               (case json_loads rt (py_strip json_string) of
                  Loaded data_dict \<Rightarrow> Inr (Some data_dict)
                | JSONDecodeError \<Rightarrow> Inr None
                | Raises e \<Rightarrow> Inl e)))"

definition prettify_name :: "string \<Rightarrow> string" where
  "prettify_name name = py_title (py_strip name)"

fun prettify_value :: "json \<Rightarrow> py_error + string" where
  \<comment> \<open>\<open>_prettify_name\<close> on a value of the response: only a string has \<open>strip\<close>.\<close>
  "prettify_value (JStr s) = Inr (prettify_name s)"
| "prettify_value _ = Inl AttributeError"

definition response_fields :: "json \<Rightarrow> py_error + string \<times> string" where
  \<comment> \<open>The two assignments \<open>cat = ...\<close> and \<open>norm = ...\<close>, in this order.\<close>
  "response_fields data_dict =
     (case py_get data_dict ''category'' of
        Inl e \<Rightarrow> Inl e
      | Inr c \<Rightarrow>
          (case prettify_value c of
             Inl e \<Rightarrow> Inl e
           | Inr cat \<Rightarrow>
               (case py_get data_dict ''normalized_name'' of
                  Inl e \<Rightarrow> Inl e
                | Inr n \<Rightarrow>
                    (case prettify_value n of
                       Inl e \<Rightarrow> Inl e
                     | Inr norm \<Rightarrow> Inr (cat, norm)))))"

subsection \<open>The tables\<close>

definition GENERIC_LAYOUT :: "(string \<times> string list) list" where
  "GENERIC_LAYOUT =
    [(''Produce'', [''Produce'']),
     (''Meat & Seafood'', [''Meat'', ''Seafood'', ''Deli'']),
     (''Bakery'', [''Bakery'']),
     (''Dairy'', [''Dairy'']),
     (''Frozen'', [''Frozen'']),
     (''Pantry'', [''Pantry'']),
     (''Snacks'', [''Snacks'']),
     (''Beverages'', [''Beverages'']),
     (''Household'', [''Household'']),
     (''Personal Care'', [''Personal Care''])]"

definition HEURISTIC_BUCKETS :: "(string \<times> string list) list" where
  "HEURISTIC_BUCKETS =
    [(''Meat'', [''chicken'', ''beef'', ''pork'', ''steak'', ''bacon'', ''sausage'', ''turkey'', ''ham'', ''lamb'']),
     (''Seafood'', [''salmon'', ''shrimp'', ''tuna'', ''cod'', ''crab'', ''lobster'', ''scallop'']),
     (''Produce'', [''banana'', ''apple'', ''spinach'', ''lettuce'', ''tomato'', ''onion'', ''potato'', ''carrot'', ''berry'', ''fruit'', ''vegetable'']),
     (''Dairy'', [''milk'', ''yogurt'', ''cheese'', ''butter'', ''cream'', ''eggs'', ''egg'']),
     (''Bakery'', [''bread'', ''bagel'', ''sourdough'', ''bun'', ''roll'', ''croissant'']),
     (''Frozen'', [''ice cream'', ''popsicle'', ''frozen'', ''ice-cream'', ''icecream'']),
     (''Pantry'', [''rice'', ''pasta'', ''canned'', ''beans'', ''sauce'', ''oil'', ''vinegar'', ''flour'', ''sugar'', ''spice'', ''cereal'']),
     (''Snacks'', [''chip'', ''chips'', ''cracker'', ''cookie'', ''chocolate'', ''popcorn'', ''granola'']),
     (''Beverages'', [''juice'', ''soda'', ''cola'', ''water'', ''beer'', ''wine'', ''coffee'', ''tea'']),
     (''Household'', [''detergent'', ''paper towel'', ''toilet paper'', ''trash bag'', ''cleaner'', ''bleach'', ''dish soap'']),
     (''Personal Care'', [''shampoo'', ''soap'', ''toothpaste'', ''deodorant'', ''razor'', ''lotion'', ''conditioner''])]"

definition ALLOWED_CATEGORIES :: "string list" where
  "ALLOWED_CATEGORIES =
    [''Produce'', ''Meat'', ''Seafood'', ''Dairy'', ''Bakery'', ''Frozen'', ''Pantry'',
     ''Snacks'', ''Beverages'', ''Household'', ''Personal Care'', ''Misc'']"

subsection \<open>The escalation chain and the keyword heuristic\<close>

definition build_prompt :: "string \<Rightarrow> string" where
  "build_prompt item =
     ''You are a grocery categorization assistant. '' @
     ''Classify the following grocery item into ONE of these categories: '' @
     ''Produce, Meat, Seafood, Dairy, Bakery, Frozen, Pantry, Snacks, '' @
     ''Beverages, Household, Personal Care, Misc.\<newline>\<newline>'' @
     ''Return ONLY a JSON object with the exact schema:\<newline>'' @
     ''{\<newline>  \"category\": \"<category>\",\<newline>  \"normalized_name\": \"<name>\"\<newline>}\<newline>\<newline>'' @
     ''Rules: do NOT invent items; do NOT include brand names unless essential; '' @
     ''if uncertain choose \"Misc\"; normalized_name must be 1-3 words.\<newline>\<newline>'' @
     ''Item: \"'' @ item @ ''\"\<newline>\<newline>Respond with JSON only.''"

definition first_three_words :: "string \<Rightarrow> string" where
  \<comment> \<open>\<open>' '.join(norm.split()[:3])\<close>\<close>
  "first_three_words norm = py_join '' '' (take 3 (py_split norm))"

definition upgrade_attempt ::
  "runtime \<Rightarrow> call_log \<Rightarrow> string \<Rightarrow> string \<Rightarrow> string \<Rightarrow> (py_error + string \<times> string) \<times> call_log" where
  \<comment> \<open>The body of \<open>if cat[:4] == 'Misc'\<close>: one request to the upgrade model; \<open>cat\<close> and
      \<open>norm\<close> are assigned again only when the response parses to a true value.\<close>
  "upgrade_attempt rt log prompt cat norm =
     (let upgrade_model = getenv_default rt ''GEMENI_UPGRADE_MODEL'' ''gemini-2.5-pro'';
          (r, log') = call_llm rt log upgrade_model prompt
      in if fst r = ''OK'' then
           (case parse_dict_from_ai_response rt (snd r) of
              Inl e \<Rightarrow> (Inl e, log')
            | Inr None \<Rightarrow> (Inr (cat, norm), log')
            | Inr (Some data_dict) \<Rightarrow>
                if truthy data_dict then
                  (case response_fields data_dict of
                     Inl e \<Rightarrow> (Inl e, log')
                   | Inr (cat', norm') \<Rightarrow> (Inr (cat', norm'), log'))
                else (Inr (cat, norm), log'))
         else (Inr (cat, norm), log'))"

definition first_response ::
  "runtime \<Rightarrow> call_log \<Rightarrow> string \<Rightarrow> (string \<times> string option) \<times> call_log" where
  \<comment> \<open>The request to the primary model and, where its status is
      \<open>RESOURCE_EXHAUSTED\<close>, the one to the alternative model.\<close>
  "first_response rt log prompt =
     (let primary_model = getenv_default rt ''GEMENI_PRIMARY_MODEL'' ''gemini-2.5-flash'';
          alternative_model = getenv_default rt ''GEMENI_ALTERNATIVE_MODEL'' ''gemini-2.5-flash-lite'';
          (r, log') = call_llm rt log primary_model prompt
      in if fst r = ''RESOURCE_EXHAUSTED'' then call_llm rt log' alternative_model prompt
         else (r, log'))"

definition ai_classify ::
  "runtime \<Rightarrow> call_log \<Rightarrow> string \<Rightarrow> (py_error + (string \<times> string) option) \<times> call_log" where
  \<comment> \<open>The body of \<open>if api_key\<close>: \<open>Inr (Some (cat, norm))\<close> where it returns, \<open>Inr None\<close>
      where control falls through to the heuristic, \<open>Inl e\<close> where it raises.\<close>
  "ai_classify rt log item =
     (let prompt = build_prompt item;
          (r, log2) = first_response rt log prompt
      in case (if fst r = ''OK'' then parse_dict_from_ai_response rt (snd r) else Inr None) of
           Inl e \<Rightarrow> (Inl e, log2)
         | Inr None \<Rightarrow> (Inr None, log2)
         | Inr (Some data_dict) \<Rightarrow>
             if truthy data_dict then
               (case response_fields data_dict of
                  Inl e \<Rightarrow> (Inl e, log2)
                | Inr (cat, norm) \<Rightarrow>
                    (case (if take 4 cat = ''Misc'' then upgrade_attempt rt log2 prompt cat norm
                           else (Inr (cat, norm), log2)) of
                       (Inl e, log3) \<Rightarrow> (Inl e, log3)
                     | (Inr (cat', norm'), log3) \<Rightarrow>
                         (if cat' \<in> set ALLOWED_CATEGORIES
                          then Inr (Some (cat', first_three_words norm')) else Inr None, log3)))
             else (Inr None, log2))"

fun heuristic_match :: "(string \<times> string list) list \<Rightarrow> string \<Rightarrow> (string \<times> string) option" where
  \<comment> \<open>The two nested loops over the buckets: the category and the keyword of the first
      hit, the keywords of a bucket taken by \<open>sorted(keywords, key=len, reverse=True)\<close>
      (a stable sort).\<close>
  "heuristic_match [] lowered = None"
| "heuristic_match ((cat, keywords) # buckets) lowered =
     (case find (\<lambda>kw. py_in kw lowered) (sort_key (\<lambda>kw. - int (length kw)) keywords) of
        Some kw \<Rightarrow> Some (cat, kw)
      | None \<Rightarrow> heuristic_match buckets lowered)"

definition heuristic_classify :: "string \<Rightarrow> string \<times> string" where
  "heuristic_classify item =
     (let lowered = py_lower (py_strip item);
          norm = first_three_words (prettify_name item)
      in case heuristic_match HEURISTIC_BUCKETS lowered of
           Some (cat, kw) \<Rightarrow> (cat, norm)
         | None \<Rightarrow> (''Misc'', norm))"

definition ai_fallback_classify ::
  "runtime \<Rightarrow> call_log \<Rightarrow> string \<Rightarrow> (py_error + string \<times> string) \<times> call_log" where
  "ai_fallback_classify rt log item =
     (case getenv rt ''GEMENI_FREE_API'' of
        None \<Rightarrow> (Inr (heuristic_classify item), log)
      | Some api_key \<Rightarrow>
          if api_key \<noteq> [] then
            (case ai_classify rt log item of
               (Inl e, log') \<Rightarrow> (Inl e, log')
             | (Inr (Some r), log') \<Rightarrow> (Inr r, log')
             | (Inr None, log') \<Rightarrow> (Inr (heuristic_classify item), log'))
          else (Inr (heuristic_classify item), log))"

subsection \<open>The resolver\<close>

definition classify_item_with_cache ::
  "runtime \<Rightarrow> cache_table \<times> call_log \<Rightarrow> string \<Rightarrow> (string \<times> string \<times> string) \<times> cache_table \<times> call_log" where
  \<comment> \<open>The cache and the log of requests go in and come out; the \<open>except Exception\<close>
      clause is the \<open>Inl\<close> branch.\<close>
  "classify_item_with_cache rt st item =
     (let item_key = py_lower (py_strip item)
      in case get_cached_item (fst st) item_key of
           Some cached \<Rightarrow>
             ((category cached, normalized_name cached, source cached), fst st, snd st)
         | None \<Rightarrow>
             (case ai_fallback_classify rt (snd st) item of
                (Inr (cat, norm), log') \<Rightarrow>
                  ((cat, norm, ''ai''),
                   (if cat \<noteq> ''Misc'' then cache_item (fst st) item_key cat norm ''ai'' else fst st),
                   log')
              | (Inl e, log') \<Rightarrow>
                  ((''Misc'', prettify_name item_key, ''fallback''), fst st, log')))"

section \<open>The store layout (db.py)\<close>

text \<open>
  The four tables of the layout, each a list of rows in insertion order; the field
  prefixes are the aliases of the queries (\<open>s\<close>, \<open>sl\<close>, \<open>sz\<close>, \<open>zc\<close>).
\<close>

record store_row =
  s_store_id :: int
  s_name :: string
  s_chain :: "string option"

record location_row =
  sl_location_id :: int
  sl_store_id :: int
  sl_city :: "string option"
  sl_state :: "string option"
  sl_postal_code :: "string option"

record zone_row =
  sz_zone_id :: int
  sz_location_id :: int
  sz_zone_name :: string
  sz_zone_order :: int

record zone_category_row =
  zc_zone_id :: int
  zc_category :: string

record database =
  stores :: "store_row list"
  store_locations :: "location_row list"
  store_zones :: "zone_row list"
  zone_categories :: "zone_category_row list"

definition get_store_id :: "database \<Rightarrow> string \<Rightarrow> string option \<Rightarrow> py_error + int" where
  \<comment> \<open>\<open>LIMIT 1\<close> and \<open>fetchone\<close>: one row of the query. The schema makes \<open>name\<close> unique
      and \<open>(store_id, postal_code)\<close> unique, so either query has at most one row; the
      first one in table order is taken. \<open>if postal_code\<close> holds for a string that is not
      empty.\<close>
  "get_store_id db store_name postal_code =
     (let rows =
        (if postal_code \<noteq> None \<and> postal_code \<noteq> Some []
         then [s_store_id s. s \<leftarrow> stores db, sl \<leftarrow> store_locations db,
                 s_store_id s = sl_store_id sl,
                 s_name s = store_name \<and> sl_postal_code sl = postal_code]
         else [s_store_id s. s \<leftarrow> stores db, s_name s = store_name])
      in case rows of
           row # _ \<Rightarrow> Inr row
         | [] \<Rightarrow> Inl ValueError)"

type_synonym layout_row = "int \<times> string \<times> string"

definition layout_join :: "database \<Rightarrow> int \<Rightarrow> layout_row list" where
  \<comment> \<open>The rows that the four-table join of \<open>get_store_layout\<close> selects for a store:
      \<open>zone_name\<close> and \<open>category\<close>, each kept with the \<open>zone_order\<close> it is sorted by. The
      order of this list has no meaning.\<close>
  "layout_join db store_id =
     [(sz_zone_order sz, sz_zone_name sz, zc_category zc).
        s \<leftarrow> stores db, sl \<leftarrow> store_locations db, s_store_id s = sl_store_id sl,
        sz \<leftarrow> store_zones db, sl_location_id sl = sz_location_id sz,
        zc \<leftarrow> zone_categories db, sz_zone_id sz = zc_zone_id zc,
        s_store_id s = store_id]"

definition fetchall_of :: "database \<Rightarrow> int \<Rightarrow> layout_row list \<Rightarrow> bool" where
  \<comment> \<open>What \<open>ORDER BY sz.zone_order ASC\<close> and \<open>cur.fetchall()\<close> promise of the rows fetched:
      they are the selected rows, in ascending \<open>zone_order\<close>. Which of two rows of the
      same \<open>zone_order\<close> comes first is the choice of the database engine.\<close>
  "fetchall_of db store_id fetched =
     (mset fetched = mset (layout_join db store_id) \<and> sorted (map fst fetched))"

fun dict_append :: "(string \<times> string list) list \<Rightarrow> string \<Rightarrow> string \<Rightarrow> (string \<times> string list) list" where
  \<comment> \<open>\<open>d[k].append(v)\<close> on a dictionary of lists that keeps the order of insertion,
      a new key starting from the empty list.\<close>
  "dict_append [] k v = [(k, [v])]"
| "dict_append ((k', vs) # d) k v =
     (if k' = k then (k', vs @ [v]) # d else (k', vs) # dict_append d k v)"

definition zones_of_rows :: "(string \<times> string) list \<Rightarrow> (string \<times> string list) list" where
  "zones_of_rows rows = foldl (\<lambda>zones (zone_name, cat). dict_append zones zone_name cat) [] rows"

definition layout_of_rows :: "layout_row list \<Rightarrow> (string \<times> string list) list" where
  \<comment> \<open>The loop over the fetched rows that fills the \<open>OrderedDict\<close>, and its items.\<close>
  "layout_of_rows fetched = zones_of_rows (map snd fetched)"

definition get_store_layout ::
  "database \<Rightarrow> int option \<Rightarrow> string option \<Rightarrow> string option \<Rightarrow> layout_row list
     \<Rightarrow> py_error + (string \<times> string list) list" where
  \<comment> \<open>\<open>fetched\<close> is what the engine returns for the layout query, where it is run.
      \<open>not store_id\<close> holds for \<open>None\<close> and for 0. The recursive call passes a store id
      only, so it raises when that id is 0.\<close>
  "get_store_layout db store_id store_name postal_code fetched =
     (if store_id = None \<or> store_id = Some 0 then
        (case store_name of
           None \<Rightarrow> Inl ValueError
         | Some n \<Rightarrow>
             if n = [] then Inl ValueError
             else (case get_store_id db n postal_code of
                     Inl e \<Rightarrow> Inl e
                   | Inr sid \<Rightarrow> if sid = 0 then Inl ValueError
                                else Inr (layout_of_rows fetched)))
      else Inr (layout_of_rows fetched))"

section \<open>Grouping and ordering (organize.py)\<close>

definition flatten_step :: "string set \<times> string list \<Rightarrow> string \<Rightarrow> string set \<times> string list" where
  \<comment> \<open>One turn of the inner loop on the pair (\<open>seen\<close>, \<open>layout\<close>).\<close>
  "flatten_step sl c = (if c \<notin> fst sl then (insert c (fst sl), snd sl @ [c]) else sl)"

definition flatten_layout :: "(string \<times> string list) list \<Rightarrow> string list" where
  "flatten_layout db_layout =
     snd (foldl (\<lambda>sl (zone, cats). foldl flatten_step sl cats) ({}, []) db_layout)"

fun classify_items ::
  "runtime \<Rightarrow> string list \<Rightarrow> (string \<times> string list) list \<times> cache_table \<times> call_log
     \<Rightarrow> (string \<times> string list) list \<times> cache_table \<times> call_log" where
  \<comment> \<open>The loop \<open>for item in items\<close> on \<open>grouped\<close>, the cache and the log of requests.\<close>
  "classify_items rt [] acc = acc"
| "classify_items rt (item # items) (grouped, st) =
     (case classify_item_with_cache rt st item of
        ((cat, norm, src), st') \<Rightarrow> classify_items rt items (dict_append grouped cat norm, st'))"

definition grouped_items :: "(string \<times> string list) list \<Rightarrow> string \<Rightarrow> string list" where
  \<comment> \<open>\<open>grouped[cat]\<close> on the \<open>defaultdict(list)\<close>.\<close>
  "grouped_items grouped cat = (case map_of grouped cat of Some names \<Rightarrow> names | None \<Rightarrow> [])"

definition build_output ::
  "string list \<Rightarrow> (string \<times> string list) list \<Rightarrow> (string \<times> string list) list" where
  \<comment> \<open>A group \<open>{"zone": cat, "items": names}\<close> is the pair \<open>(cat, names)\<close>.\<close>
  "build_output layout grouped =
     (let remaining = [c \<leftarrow> map fst grouped. c \<notin> set layout]
      in [(cat, grouped_items grouped cat). cat \<leftarrow> layout, cat \<in> set (map fst grouped)] @
         [(cat, grouped_items grouped cat). cat \<leftarrow> sort remaining])"

definition order_items_in ::
  "runtime \<Rightarrow> (string \<times> string list) list \<Rightarrow> string list \<Rightarrow> cache_table \<times> call_log
     \<Rightarrow> (string \<times> string list) list \<times> cache_table \<times> call_log" where
  \<comment> \<open>\<open>order_items\<close> from the point where \<open>db_layout\<close> is known.\<close>
  "order_items_in rt db_layout items st =
     (let layout = flatten_layout db_layout
      in case classify_items rt items ([], st) of
           (grouped, st') \<Rightarrow> (build_output layout grouped, st'))"

definition order_items ::
  "runtime \<Rightarrow> int option \<Rightarrow> layout_row list \<Rightarrow> string list \<Rightarrow> cache_table \<times> call_log
     \<Rightarrow> (string \<times> string list) list \<times> cache_table \<times> call_log" where
  \<comment> \<open>\<open>if store_id\<close> holds for an identifier that is not 0; \<open>get_store_layout(store_id)\<close>
      then returns the layout of the rows fetched for it.\<close>
  "order_items rt store_id fetched items st =
     (let db_layout = (case store_id of
                         None \<Rightarrow> GENERIC_LAYOUT
                       | Some sid \<Rightarrow> if sid \<noteq> 0 then layout_of_rows fetched else GENERIC_LAYOUT)
      in order_items_in rt db_layout items st)"

section \<open>Vocabulary for the escalation chain\<close>



definition upgrade_call :: "runtime \<Rightarrow> string \<Rightarrow> string \<times> string" where
  "upgrade_call rt prompt =
     (getenv_default rt ''GEMENI_UPGRADE_MODEL'' ''gemini-2.5-pro'', prompt)"

definition api_key_set :: "runtime \<Rightarrow> bool" where
  \<comment> \<open>\<open>if api_key\<close>\<close>
  "api_key_set rt = (case getenv rt ''GEMENI_FREE_API'' of Some k \<Rightarrow> k \<noteq> [] | None \<Rightarrow> False)"


definition first_fields :: "runtime \<Rightarrow> call_log \<Rightarrow> string \<Rightarrow> (string \<times> string) option" where
  \<comment> \<open>\<open>cat\<close> and \<open>norm\<close> as first assigned: the status is \<open>OK\<close>, the text parses to a
      true value, and both fields read without an error.\<close>
  "first_fields rt log item =
     (let (r, log2) = first_response rt log (build_prompt item)
      in if fst r = ''OK'' then
           (case parse_dict_from_ai_response rt (snd r) of
              Inr (Some data_dict) \<Rightarrow>
                if truthy data_dict then
                  (case response_fields data_dict of Inr cn \<Rightarrow> Some cn | Inl e \<Rightarrow> None)
                else None
            | _ \<Rightarrow> None)
         else None)"


definition upgrade_outcome :: "runtime \<Rightarrow> call_log \<Rightarrow> string \<Rightarrow> genai_outcome" where
  \<comment> \<open>What the request to the upgrade model does, made after those of \<open>first_response\<close>.\<close>
  "upgrade_outcome rt log item =
     genai rt (length (snd (first_response rt log (build_prompt item))))
       (fst (upgrade_call rt (build_prompt item))) (build_prompt item)"



section \<open>Vocabulary for the grouping\<close>

fun resolve_all :: "runtime \<Rightarrow> string list \<Rightarrow> cache_table \<times> call_log \<Rightarrow> (string \<times> string) list" where
  \<comment> \<open>The category and the name that the loop of \<open>order_items\<close> gets for each item, in
      the order of the items, the cache and the log passing from one item to the next.\<close>
  "resolve_all rt [] st = []"
| "resolve_all rt (item # items) st =
     (case classify_item_with_cache rt st item of
        ((cat, norm, src), st') \<Rightarrow> (cat, norm) # resolve_all rt items st')"

definition names_of :: "(string \<times> string) list \<Rightarrow> string \<Rightarrow> string list" where
  \<comment> \<open>The names resolved to one category, in the order of the items.\<close>
  "names_of resolved cat = map snd (filter (\<lambda>p. fst p = cat) resolved)"

section \<open>Concrete inputs\<close>

definition rt_none :: runtime where
  \<comment> \<open>No credential in the environment and no client library.\<close>
  "rt_none = \<lparr>environ = Map.empty, genai_installed = False,
               genai = (\<lambda>n model prompt. RaisesOther),
               json_loads = (\<lambda>s. JSONDecodeError)\<rparr>"

definition manual_cache :: cache_table where
  "manual_cache = override_item Map.empty ''Milk '' ''Pantry'' ''Oat Milk''"

definition empty_cache :: cache_table where
  "empty_cache = Map.empty"

definition fenced :: "string \<Rightarrow> string" where
  \<comment> \<open>A response text that holds one fenced block.\<close>
  "fenced body = ''```json\<newline>'' @ body @ ''\<newline>```''"

definition produce_json :: string where
  "produce_json = ''{\"category\":\"Produce\",\"normalized_name\":\"Quirky Item\"}''"

definition misc_json :: string where
  "misc_json = ''{\"category\":\"Misc\",\"normalized_name\":\"Milk\"}''"

definition toys_json :: string where
  "toys_json = ''{\"category\":\"Toys\",\"normalized_name\":\"Milk\"}''"

definition no_name_json :: string where
  "no_name_json = ''{\"category\":\"Produce\"}''"

definition loads_sample :: "string \<Rightarrow> loads_outcome" where
  \<comment> \<open>\<open>json.loads\<close> on the four texts above.\<close>
  "loads_sample s =
     (if s = produce_json
        then Loaded (JDict [(''category'', JStr ''Produce''), (''normalized_name'', JStr ''Quirky Item'')])
      else if s = misc_json
        then Loaded (JDict [(''category'', JStr ''Misc''), (''normalized_name'', JStr ''Milk'')])
      else if s = toys_json
        then Loaded (JDict [(''category'', JStr ''Toys''), (''normalized_name'', JStr ''Milk'')])
      else if s = no_name_json
        then Loaded (JDict [(''category'', JStr ''Produce'')])
      else JSONDecodeError)"

definition rt_late :: runtime where
  \<comment> \<open>A credential is set; the first request is answered with text that holds no
      fenced block, every later one with the block \<open>produce_json\<close>.\<close>
  "rt_late = \<lparr>environ = [''GEMENI_FREE_API'' \<mapsto> ''key''], genai_installed = True,
               genai = (\<lambda>n model prompt.
                          if n = 0 then Responds (Some ''NOT JSON'')
                          else Responds (Some (fenced produce_json))),
               json_loads = loads_sample\<rparr>"

definition rt_toys :: runtime where
  \<comment> \<open>The first request is answered with category \<open>Misc\<close>, every later one with the
      category \<open>Toys\<close>, which is not an allowed one.\<close>
  "rt_toys = \<lparr>environ = [''GEMENI_FREE_API'' \<mapsto> ''key''], genai_installed = True,
               genai = (\<lambda>n model prompt.
                          if n = 0 then Responds (Some (fenced misc_json))
                          else Responds (Some (fenced toys_json))),
               json_loads = loads_sample\<rparr>"


definition rt_misc :: runtime where
  \<comment> \<open>Every request is answered with the category \<open>Misc\<close>.\<close>
  "rt_misc = \<lparr>environ = [''GEMENI_FREE_API'' \<mapsto> ''key''], genai_installed = True,
               genai = (\<lambda>n model prompt. Responds (Some (fenced misc_json))),
               json_loads = loads_sample\<rparr>"




definition two_locations :: database where
  \<comment> \<open>The tables after \<open>add_store_layout('S', None, None, None, '11111', [('Front', ['Produce'])])\<close>
      and \<open>add_store_layout('S', None, None, None, '22222', [('Back', ['Bakery'])])\<close> on an
      empty database: one store with two locations, each with one zone.\<close>
  "two_locations =
     \<lparr>stores = [\<lparr>s_store_id = 1, s_name = ''S'', s_chain = None\<rparr>],
      store_locations =
        [\<lparr>sl_location_id = 1, sl_store_id = 1, sl_city = None, sl_state = None,
           sl_postal_code = Some ''11111''\<rparr>,
         \<lparr>sl_location_id = 2, sl_store_id = 1, sl_city = None, sl_state = None,
           sl_postal_code = Some ''22222''\<rparr>],
      store_zones =
        [\<lparr>sz_zone_id = 1, sz_location_id = 1, sz_zone_name = ''Front'', sz_zone_order = 1\<rparr>,
         \<lparr>sz_zone_id = 2, sz_location_id = 2, sz_zone_name = ''Back'', sz_zone_order = 1\<rparr>],
      zone_categories =
        [\<lparr>zc_zone_id = 1, zc_category = ''Produce''\<rparr>,
         \<lparr>zc_zone_id = 2, zc_category = ''Bakery''\<rparr>]\<rparr>"

definition small_layout :: "(string \<times> string list) list" where
  "small_layout = [(''Zone1'', [''Produce'']), (''Zone2'', [''Dairy'', ''Produce''])]"

section \<open>Properties of the string operations\<close>

lemma of_char_lower_char:
  "of_char (lower_char c) = (if is_upper c then of_char c + 32 else (of_char c :: nat))"
  by (simp add: lower_char_def is_upper_def)

lemma py_isspace_lower_char [simp]: "py_isspace (lower_char c) = py_isspace c"
  by (simp add: py_isspace_def of_char_lower_char Let_def is_upper_def)

lemma is_upper_lower_char [simp]: "\<not> is_upper (lower_char c)"
  by (simp add: is_upper_def of_char_lower_char)

lemma lower_char_idem [simp]: "lower_char (lower_char c) = lower_char c"
  by (simp add: lower_char_def [of "lower_char c"])

lemma py_lower_idem [simp]: "py_lower (py_lower s) = py_lower s"
  by (simp add: py_lower_def)

lemma py_strip_lower: "py_strip (py_lower s) = py_lower (py_strip s)"
  by (simp add: py_strip_def py_lower_def dropWhile_map rev_map comp_def)

lemma dropWhile_rev_tail:
  "dropWhile P (rev (dropWhile P (rev (dropWhile P s)))) = rev (dropWhile P (rev (dropWhile P s)))"
proof (cases "dropWhile P s")
  case Nil
  then show ?thesis by (simp del: dropWhile_eq_Nil_conv)
next
  case (Cons x t)
  then have nx: "\<not> P x" by (metis hd_dropWhile list.sel(1) list.distinct(1))
  have "dropWhile P (rev t @ [x]) = dropWhile P (rev t) @ [x]"
    using nx by (induction "rev t" arbitrary: t) (auto simp: dropWhile_append)
  then have "rev (dropWhile P (rev (x # t))) = x # rev (dropWhile P (rev t))"
    by simp
  then show ?thesis using nx Cons by simp
qed

lemma py_strip_idem [simp]: "py_strip (py_strip s) = py_strip s"
  unfolding py_strip_def by (simp add: dropWhile_rev_tail)

lemma normalize_item_key_idem [simp]:
  "normalize_item_key (normalize_item_key item) = normalize_item_key item"
  by (simp add: normalize_item_key_def py_strip_lower)

lemma normalize_key_fixed [simp]:
  "normalize_item_key (py_lower (py_strip item)) = py_lower (py_strip item)"
  by (simp add: normalize_item_key_def py_strip_lower)

lemma upper_char_lower_char [simp]: "upper_char (lower_char c) = upper_char c"
proof (cases "is_upper c")
  case True
  then have low: "is_lower (lower_char c)"
    by (simp add: is_lower_def is_upper_def of_char_lower_char)
  have "\<not> is_lower c" using True by (simp add: is_lower_def is_upper_def)
  then show ?thesis using True low
    by (simp add: upper_char_def of_char_lower_char)
next
  case False
  then show ?thesis by (simp add: lower_char_def)
qed

lemma is_cased_lower_char [simp]: "is_cased (lower_char c) = is_cased c"
  by (auto simp: is_cased_def is_lower_def is_upper_def of_char_lower_char)

lemma title_from_lower [simp]: "title_from b (py_lower s) = title_from b s"
  unfolding py_lower_def by (induction s arbitrary: b) simp_all

lemma prettify_name_key [simp]: "prettify_name (py_lower (py_strip item)) = prettify_name item"
  by (simp add: prettify_name_def py_strip_lower py_title_def)

section \<open>The cache and manual overrides\<close>

lemma cache_item_keeps_manual:
  assumes "cache k = Some r" and "source r = ''manual''"
  shows "cache_item cache item cat norm src k = Some r"
  using assms by (auto simp: cache_item_def Let_def split: option.splits)

lemma cache_item_manual_unchanged:
  assumes "cache (normalize_item_key item) = Some r" and "source r = ''manual''"
  shows "cache_item cache item cat norm src = cache"
  using assms by (simp add: cache_item_def Let_def)

lemma classify_item_keeps_manual:
  assumes "fst st k = Some r" and "source r = ''manual''"
  shows "fst (snd (classify_item_with_cache rt st item)) k = Some r"
  using assms
  by (auto simp: classify_item_with_cache_def Let_def cache_item_keeps_manual
           split: option.splits sum.splits prod.splits)

lemma classify_items_keeps_manual:
  assumes "fst st k = Some r" and "source r = ''manual''"
  shows "fst (snd (classify_items rt items (grouped, st))) k = Some r"
  using assms
proof (induction items arbitrary: grouped st)
  case Nil
  then show ?case by simp
next
  case (Cons item items)
  obtain cat norm src st' where step: "classify_item_with_cache rt st item = ((cat, norm, src), st')"
    by (metis prod_cases3)
  have "fst st' k = Some r"
    using classify_item_keeps_manual [OF Cons.prems, of rt item] step by simp
  then show ?case using Cons.IH [of st'] Cons.prems(2) step by simp
qed

lemma norm_milk: "normalize_item_key ''Milk '' = ''milk''"
  by code_simp

text \<open>
  Claim C1. Where the cache holds a record of source \<open>manual\<close> under a key, a call of
  \<open>cache_item\<close> with any arguments leaves that record as it is (and, aimed at that key,
  leaves the whole cache as it is), and so does a resolution of any item and the
  resolution of any list of items one after the other.
\<close>

theorem manual_override_protected:
  assumes "cache k = Some r" and "source r = ''manual''"
  shows "cache_item cache item cat norm src k = Some r \<and>
         (normalize_item_key item = k \<longrightarrow> cache_item cache item cat norm src = cache) \<and>
         fst (snd (classify_item_with_cache rt (cache, log) item)) k = Some r \<and>
         fst (snd (classify_items rt items (grouped, cache, log))) k = Some r"
  using assms cache_item_keeps_manual [of cache k r] cache_item_manual_unchanged [of cache item r]
    classify_item_keeps_manual [of "(cache, log)" k r] classify_items_keeps_manual [of "(cache, log)" k r]
  by auto

theorem manual_override_protected_witness:
  "manual_cache ''milk'' = Some \<lparr>category = ''Pantry'', normalized_name = ''Oat Milk'', source = ''manual''\<rparr> \<and>
   cache_item manual_cache '' MILK'' ''Dairy'' ''Milk'' ''ai'' ''milk''
     = Some \<lparr>category = ''Pantry'', normalized_name = ''Oat Milk'', source = ''manual''\<rparr> \<and>
   fst (snd (classify_item_with_cache rt_none (manual_cache, []) '' MILK'')) ''milk''
     = Some \<lparr>category = ''Pantry'', normalized_name = ''Oat Milk'', source = ''manual''\<rparr>"
proof -
  have h: "manual_cache ''milk'' = Some \<lparr>category = ''Pantry'', normalized_name = ''Oat Milk'', source = ''manual''\<rparr>"
    by (simp add: manual_cache_def override_item_def norm_milk)
  show ?thesis
    using h manual_override_protected [of manual_cache "''milk''"
        "\<lparr>category = ''Pantry'', normalized_name = ''Oat Milk'', source = ''manual''\<rparr>"
        "'' MILK''" "''Dairy''" "''Milk''" "''ai''" rt_none "[]" "[]" "[]"]
    by simp
qed

text \<open>
  Claim C10. After \<open>override_item\<close> the cache holds, under the trimmed and lowered item,
  the record of the given category and name with source \<open>manual\<close>, whatever was there
  before; every other key is as before; an override on top of an override replaces it.
\<close>

theorem override_item_unconditional:
  "get_cached_item (override_item cache item cat norm) (py_lower (py_strip item))
     = Some \<lparr>category = cat, normalized_name = norm, source = ''manual''\<rparr> \<and>
   override_item cache item cat norm |` (- {py_lower (py_strip item)})
     = cache |` (- {py_lower (py_strip item)}) \<and>
   override_item (override_item cache item cat0 norm0) item cat norm
     = override_item cache item cat norm"
proof -
  have "override_item cache item cat norm |` (- {py_lower (py_strip item)})
          = cache |` (- {py_lower (py_strip item)})"
    unfolding override_item_def normalize_item_key_def
    by (rule ext) (simp add: restrict_map_def)
  then show ?thesis
    by (simp add: override_item_def get_cached_item_def normalize_item_key_def)
qed

section \<open>The resolver\<close>

lemma classify_hit:
  assumes "get_cached_item cache (py_lower (py_strip item)) = Some r"
  shows "classify_item_with_cache rt (cache, log) item =
           ((category r, normalized_name r, source r), cache, log)"
  using assms by (simp add: classify_item_with_cache_def)

lemma classify_miss_ok:
  assumes "get_cached_item cache (py_lower (py_strip item)) = None"
      and "ai_fallback_classify rt log item = (Inr (cat, norm), log')"
  shows "classify_item_with_cache rt (cache, log) item =
           ((cat, norm, ''ai''),
            (if cat \<noteq> ''Misc''
             then cache(py_lower (py_strip item) \<mapsto> \<lparr>category = cat, normalized_name = norm, source = ''ai''\<rparr>)
             else cache),
            log')"
  using assms
  by (simp add: classify_item_with_cache_def cache_item_def get_cached_item_def)




lemma empty_cache_miss: "get_cached_item empty_cache k = None"
  by (simp add: empty_cache_def get_cached_item_def)



lemma classify_miss_cases:
  assumes "get_cached_item cache (py_lower (py_strip item)) = None"
  shows "classify_item_with_cache rt (cache, log) item =
     (case ai_fallback_classify rt log item of
        (Inr (cat, norm), log') \<Rightarrow>
          ((cat, norm, ''ai''),
           (if cat \<noteq> ''Misc''
            then cache(py_lower (py_strip item) \<mapsto> \<lparr>category = cat, normalized_name = norm, source = ''ai''\<rparr>)
            else cache), log')
      | (Inl e, log') \<Rightarrow> ((''Misc'', prettify_name item, ''fallback''), cache, log'))"
  using assms
  by (simp add: classify_item_with_cache_def cache_item_def get_cached_item_def
           split: prod.splits sum.splits)

text \<open>
  Claim C2. On a cache miss, a resolution that gives \<open>Misc\<close> leaves the cache as it was,
  so the key is still absent and a later resolution (in any runtime) runs the classifier
  again; a resolution that gives another category leaves the cache changed at one key
  only, the normalized item, which now holds that category and name with source \<open>ai\<close>.
\<close>

theorem misc_never_persisted:
  assumes "get_cached_item cache (py_lower (py_strip item)) = None"
      and "classify_item_with_cache rt (cache, log) item = ((cat, norm, src), cache', log')"
  shows "(cat = ''Misc'' \<longrightarrow>
            cache' = cache \<and>
            get_cached_item cache' (py_lower (py_strip item)) = None \<and>
            classify_item_with_cache rt2 (cache', log') item =
              (case ai_fallback_classify rt2 log' item of
                 (Inr (cat2, norm2), log2) \<Rightarrow>
                   ((cat2, norm2, ''ai''),
                    (if cat2 \<noteq> ''Misc''
                     then cache(py_lower (py_strip item) \<mapsto>
                            \<lparr>category = cat2, normalized_name = norm2, source = ''ai''\<rparr>)
                     else cache), log2)
               | (Inl e, log2) \<Rightarrow> ((''Misc'', prettify_name item, ''fallback''), cache, log2))) \<and>
         (cat \<noteq> ''Misc'' \<longrightarrow>
            cache' = cache(py_lower (py_strip item) \<mapsto>
                       \<lparr>category = cat, normalized_name = norm, source = ''ai''\<rparr>))"
proof -
  have first: "cat = ''Misc'' \<longrightarrow> cache' = cache"
    and second: "cat \<noteq> ''Misc'' \<longrightarrow>
            cache' = cache(py_lower (py_strip item) \<mapsto>
                       \<lparr>category = cat, normalized_name = norm, source = ''ai''\<rparr>)"
    using assms(2) unfolding classify_miss_cases [OF assms(1)]
    by (auto split: prod.splits sum.splits if_splits)
  show ?thesis
    using first second assms(1) classify_miss_cases [of cache item rt2 log']
    by auto
qed

lemma quirky_key: "py_lower (py_strip ''quirky item'') = ''quirky item''"
  by code_simp

lemma quirky_heuristic:
  "ai_fallback_classify rt_none [] ''quirky item'' = (Inr (''Misc'', ''Quirky Item''), [])"
  by code_simp

lemma quirky_resolved:
  "classify_item_with_cache rt_none (empty_cache, []) ''quirky item'' =
     ((''Misc'', ''Quirky Item'', ''ai''), empty_cache, [])"
  using classify_miss_ok [OF empty_cache_miss quirky_heuristic] by simp

theorem misc_never_persisted_witness:
  "get_cached_item empty_cache (py_lower (py_strip ''quirky item'')) = None \<and>
   classify_item_with_cache rt_none (empty_cache, []) ''quirky item'' =
     ((''Misc'', ''Quirky Item'', ''ai''), empty_cache, []) \<and>
   get_cached_item empty_cache ''quirky item'' = None"
  using misc_never_persisted [OF empty_cache_miss quirky_resolved, of rt_none]
    quirky_resolved empty_cache_miss
  by simp

text \<open>
  Claim C3, as amended. Where a resolution was a cache hit, or gave a category other than
  \<open>Misc\<close>, the cache afterwards holds its result under the normalized item, and a second
  resolution (in any runtime) returns the same triple from the cache: the cache and the
  log of requests stay as they are, so nothing is classified again.
\<close>

theorem resolve_twice_from_cache:
  assumes "classify_item_with_cache rt (cache, log) item = ((cat, norm, src), cache', log')"
      and "get_cached_item cache (py_lower (py_strip item)) \<noteq> None \<or> cat \<noteq> ''Misc''"
  shows "get_cached_item cache' (py_lower (py_strip item))
           = Some \<lparr>category = cat, normalized_name = norm, source = src\<rparr> \<and>
         classify_item_with_cache rt2 (cache', log') item = ((cat, norm, src), cache', log')"
proof (cases "get_cached_item cache (py_lower (py_strip item))")
  case (Some r)
  have "cache' = cache" "log' = log" "cat = category r" "norm = normalized_name r" "src = source r"
    using assms(1) classify_hit [OF Some, of rt log] by simp_all
  then show ?thesis using Some classify_hit [of cache item r rt2 log] by simp
next
  case None
  then have nm: "cat \<noteq> ''Misc''" using assms(2) by simp
  have stored: "cache' = cache(py_lower (py_strip item) \<mapsto>
                       \<lparr>category = cat, normalized_name = norm, source = ''ai''\<rparr>)"
    and src: "src = ''ai''"
    using assms(1) nm unfolding classify_miss_cases [OF None]
    by (auto split: prod.splits sum.splits if_splits)
  have hit: "get_cached_item cache' (py_lower (py_strip item))
           = Some \<lparr>category = cat, normalized_name = norm, source = src\<rparr>"
    using stored src by (simp add: get_cached_item_def)
  show ?thesis using hit classify_hit [OF hit, of rt2 log'] by simp
qed

lemma milk_key: "py_lower (py_strip ''milk'') = ''milk''"
  by code_simp

lemma milk_heuristic:
  "ai_fallback_classify rt_none [] ''milk'' = (Inr (''Dairy'', ''Milk''), [])"
  by code_simp

lemma milk_resolved:
  "classify_item_with_cache rt_none (empty_cache, []) ''milk'' =
     ((''Dairy'', ''Milk'', ''ai''),
      empty_cache(''milk'' \<mapsto> \<lparr>category = ''Dairy'', normalized_name = ''Milk'', source = ''ai''\<rparr>),
      [])"
  using classify_miss_ok [OF empty_cache_miss milk_heuristic] by (simp add: milk_key)

theorem resolve_twice_from_cache_witness:
  "classify_item_with_cache rt_none (empty_cache, []) ''milk'' =
     ((''Dairy'', ''Milk'', ''ai''),
      empty_cache(''milk'' \<mapsto> \<lparr>category = ''Dairy'', normalized_name = ''Milk'', source = ''ai''\<rparr>),
      []) \<and>
   classify_item_with_cache rt_late
       (empty_cache(''milk'' \<mapsto> \<lparr>category = ''Dairy'', normalized_name = ''Milk'', source = ''ai''\<rparr>), [])
       ''milk'' =
     ((''Dairy'', ''Milk'', ''ai''),
      empty_cache(''milk'' \<mapsto> \<lparr>category = ''Dairy'', normalized_name = ''Milk'', source = ''ai''\<rparr>),
      [])"
  using resolve_twice_from_cache [OF milk_resolved, of rt_late] milk_resolved
  by simp

lemma late_first:
  "ai_fallback_classify rt_late [] ''quirky item'' =
     (Inr (''Misc'', ''Quirky Item''), [(''gemini-2.5-flash'', build_prompt ''quirky item'')])"
  by code_simp

lemma late_second:
  "ai_fallback_classify rt_late [(''gemini-2.5-flash'', build_prompt ''quirky item'')] ''quirky item'' =
     (Inr (''Produce'', ''Quirky Item''),
      [(''gemini-2.5-flash'', build_prompt ''quirky item''),
       (''gemini-2.5-flash'', build_prompt ''quirky item'')])"
  by code_simp

lemma late_first_resolved:
  "classify_item_with_cache rt_late (empty_cache, []) ''quirky item'' =
     ((''Misc'', ''Quirky Item'', ''ai''), empty_cache,
      [(''gemini-2.5-flash'', build_prompt ''quirky item'')])"
  using classify_miss_ok [OF empty_cache_miss late_first] by simp

text \<open>
  Claim C3 as stated fails for an item that resolves to \<open>Misc\<close>: nothing is stored, so the
  second resolution misses the cache and classifies again, here with another answer from
  the remote model.
\<close>

theorem resolve_twice_counterexample:
  "fst (classify_item_with_cache rt_late (empty_cache, []) ''quirky item'')
     = (''Misc'', ''Quirky Item'', ''ai'') \<and>
   get_cached_item (fst (snd (classify_item_with_cache rt_late (empty_cache, []) ''quirky item'')))
     (py_lower (py_strip ''quirky item'')) = None \<and>
   fst (classify_item_with_cache rt_late
          (snd (classify_item_with_cache rt_late (empty_cache, []) ''quirky item'')) ''quirky item'')
     = (''Produce'', ''Quirky Item'', ''ai'')"
  using classify_miss_ok [OF empty_cache_miss late_second] late_first_resolved empty_cache_miss
  by simp

section \<open>The keyword heuristic\<close>

lemma find_filter_keep:
  "find P ys = Some x \<Longrightarrow> Q x \<Longrightarrow> find P (filter Q ys) = Some x"
  by (induction ys) (auto split: if_splits)

lemma find_sorted_max:
  assumes "find P ys = Some x" and "sorted (map f ys)" and "y \<in> set ys" and "P y"
  shows "f x \<le> f y"
proof -
  obtain i where i: "i < length ys" "x = ys ! i" "\<forall>j<i. \<not> P (ys ! j)"
    using assms(1) unfolding find_Some_iff by blast
  obtain j where j: "j < length ys" "y = ys ! j"
    using assms(3) by (auto simp: in_set_conv_nth)
  have "i \<le> j" using i(3) j(2) assms(4) by (meson not_le_imp_less)
  then have "map f ys ! i \<le> map f ys ! j"
    using assms(2) j(1) by (simp add: sorted_iff_nth_mono del: nth_map)
  then show ?thesis using i j by simp
qed

lemma bucket_longest_first:
  assumes "find P (sort_key (\<lambda>kw. - int (length kw)) (kws :: string list)) = Some kw"
  shows "P kw \<and> kw \<in> set kws \<and>
         (\<forall>kw' \<in> set kws. P kw' \<longrightarrow> length kw' \<le> length kw) \<and>
         find P [k \<leftarrow> kws. length k = length kw] = Some kw"
proof -
  let ?f = "\<lambda>kw::string. - int (length kw)"
  let ?ys = "sort_key ?f kws"
  have p: "P kw"
    using assms by (auto simp: find_Some_iff)
  have "kw \<in> set ?ys"
    using assms by (metis find_Some_iff nth_mem)
  then have mem: "kw \<in> set kws" by simp
  have longest: "length kw' \<le> length kw" if "kw' \<in> set kws" "P kw'" for kw'
    using find_sorted_max [OF assms, of ?f kw'] that by simp
  have "find P [k \<leftarrow> ?ys. ?f k = ?f kw] = Some kw"
    using find_filter_keep [OF assms, of "\<lambda>k. ?f k = ?f kw"] by simp
  then have "find P [k \<leftarrow> kws. ?f k = ?f kw] = Some kw"
    by (simp only: sort_key_stable)
  then have "find P [k \<leftarrow> kws. length k = length kw] = Some kw" by simp
  then show ?thesis using p mem longest by blast
qed

lemma heuristic_match_Some:
  assumes "heuristic_match buckets lowered = Some (cat, kw)"
  shows "\<exists>before kws after.
           buckets = before @ (cat, kws) # after \<and>
           (\<forall>(c, ks) \<in> set before. \<forall>k \<in> set ks. \<not> py_in k lowered) \<and>
           find (\<lambda>k. py_in k lowered) (sort_key (\<lambda>kw. - int (length kw)) kws) = Some kw"
  using assms
proof (induction buckets)
  case Nil
  then show ?case by simp
next
  case (Cons b buckets)
  obtain c ks where b: "b = (c, ks)" by (cases b)
  show ?case
  proof (cases "find (\<lambda>k. py_in k lowered) (sort_key (\<lambda>kw. - int (length kw)) ks)")
    case None
    then have none: "\<forall>k \<in> set ks. \<not> py_in k lowered" by (simp add: find_None_iff)
    from Cons.prems None b have "heuristic_match buckets lowered = Some (cat, kw)" by simp
    from Cons.IH [OF this] obtain before kws after where
      IH: "buckets = before @ (cat, kws) # after"
          "\<forall>(c, ks) \<in> set before. \<forall>k \<in> set ks. \<not> py_in k lowered"
          "find (\<lambda>k. py_in k lowered) (sort_key (\<lambda>kw. - int (length kw)) kws) = Some kw"
      by blast
    have "b # buckets = (b # before) @ (cat, kws) # after" using IH(1) by simp
    moreover have "\<forall>(c, ks) \<in> set (b # before). \<forall>k \<in> set ks. \<not> py_in k lowered"
      using IH(2) none b by simp
    ultimately show ?thesis using IH(3) by blast
  next
    case (Some k)
    with Cons.prems b have "c = cat" "k = kw" by simp_all
    then have "b # buckets = [] @ (cat, ks) # buckets" using b by simp
    then show ?thesis using Some \<open>k = kw\<close> by fastforce
  qed
qed

lemma heuristic_match_None:
  "heuristic_match buckets lowered = None \<longleftrightarrow>
     (\<forall>(c, ks) \<in> set buckets. \<forall>k \<in> set ks. \<not> py_in k lowered)"
  by (induction buckets) (auto simp: find_None_iff split: option.splits)

lemma sandwich_match:
  "heuristic_match HEURISTIC_BUCKETS (py_lower (py_strip ''ice cream sandwich''))
     = Some (''Dairy'', ''cream'')"
  by code_simp

text \<open>
  Claim C4. The rule of the claim holds (\<open>bucket_longest_first\<close>, \<open>heuristic_match_Some\<close>):
  the first bucket with a hit decides, and within it the longest keyword that occurs,
  the earliest of that length. At the item \<open>ice cream sandwich\<close>, with no credential set,
  that rule gives \<open>Dairy\<close> and not \<open>Frozen\<close>: the bucket \<open>Dairy\<close> comes before the bucket
  \<open>Frozen\<close> and its keyword \<open>cream\<close> occurs in the item.
\<close>

theorem ice_cream_sandwich_is_dairy:
  "ai_fallback_classify rt_none [] ''ice cream sandwich''
     = (Inr (''Dairy'', ''Ice Cream Sandwich''), [])"
  by code_simp

section \<open>The escalation chain\<close>

lemma call_llm_log:
  "snd (call_llm rt log model prompt) = (if genai_installed rt then log @ [(model, prompt)] else log)"
  by (simp add: call_llm_def)

lemma call_llm_OK_installed:
  "fst (fst (call_llm rt log model prompt)) = ''OK'' \<Longrightarrow> genai_installed rt"
  by (simp add: call_llm_def split: if_splits)

lemma first_response_OK_installed:
  "fst (fst (first_response rt log prompt)) = ''OK'' \<Longrightarrow> genai_installed rt"
  by (auto simp: first_response_def Let_def call_llm_def split: prod.splits if_splits)


lemma first_fields_installed:
  "first_fields rt log item = Some cn \<Longrightarrow> genai_installed rt"
proof -
  obtain r log2 where r: "first_response rt log (build_prompt item) = (r, log2)"
    by (cases "first_response rt log (build_prompt item)")
  assume "first_fields rt log item = Some cn"
  then have "fst r = ''OK''"
    by (simp add: first_fields_def r split: if_splits)
  then show ?thesis
    using first_response_OK_installed [of rt log "build_prompt item"] r by simp
qed








lemma first_fields_SomeD:
  assumes "first_fields rt log item = Some (cat, norm)"
  shows "\<exists>r log2 d. first_response rt log (build_prompt item) = (r, log2) \<and> fst r = ''OK'' \<and>
           parse_dict_from_ai_response rt (snd r) = Inr (Some d) \<and> truthy d \<and>
           response_fields d = Inr (cat, norm)"
  using assms unfolding first_fields_def Let_def
  by (auto split: prod.splits sum.splits option.splits if_splits)

lemma ai_fallback_classify_upgrade:
  assumes "api_key_set rt" and "first_fields rt log item = Some (cat, norm)"
      and "take 4 cat = ''Misc''"
  shows "ai_fallback_classify rt log item =
     (case upgrade_attempt rt (snd (first_response rt log (build_prompt item))) (build_prompt item) cat norm of
        (Inl e, log3) \<Rightarrow> (Inl e, log3)
      | (Inr (cat', norm'), log3) \<Rightarrow>
          (if cat' \<in> set ALLOWED_CATEGORIES then Inr (cat', first_three_words norm')
           else Inr (heuristic_classify item), log3))"
proof -
  obtain r log2 d where f: "first_response rt log (build_prompt item) = (r, log2)" "fst r = ''OK''"
      "parse_dict_from_ai_response rt (snd r) = Inr (Some d)" "truthy d"
      "response_fields d = Inr (cat, norm)"
    using first_fields_SomeD [OF assms(2)] by blast
  have "ai_classify rt log item =
     (case upgrade_attempt rt log2 (build_prompt item) cat norm of
        (Inl e, log3) \<Rightarrow> (Inl e, log3)
      | (Inr (cat', norm'), log3) \<Rightarrow>
          (if cat' \<in> set ALLOWED_CATEGORIES then Inr (Some (cat', first_three_words norm'))
           else Inr None, log3))"
    using f assms(3) by (simp add: ai_classify_def Let_def)
  then show ?thesis
    using assms(1) f(1)
    by (auto simp: ai_fallback_classify_def api_key_set_def split: option.splits prod.splits sum.splits)
qed









section \<open>Escalation to the upgrade model\<close>

lemma upgrade_attempt_cases:
  assumes "genai_installed rt"
  shows "upgrade_attempt rt log prompt cat norm =
     (case genai rt (length log) (fst (upgrade_call rt prompt)) prompt of
        Responds text \<Rightarrow>
          (case parse_dict_from_ai_response rt text of
             Inl e \<Rightarrow> Inl e
           | Inr None \<Rightarrow> Inr (cat, norm)
           | Inr (Some d) \<Rightarrow> if truthy d then response_fields d else Inr (cat, norm))
      | _ \<Rightarrow> Inr (cat, norm),
      log @ [upgrade_call rt prompt])"
  using assms
  by (auto simp: upgrade_attempt_def Let_def upgrade_call_def call_llm_def
        split: prod.splits sum.splits option.splits genai_outcome.splits)

text \<open>
  Claim C6, as amended. Where a credential is set and the first response reads as
  category \<open>Misc\<close>, the run makes one more request, to the upgrade model with the same
  prompt. \<open>Misc\<close> with the first name is returned where that request does not answer, or
  answers with text that holds no block, no valid JSON or a false value; \<open>Misc\<close> with the
  upgrade's name where the upgrade reads as \<open>Misc\<close> again. Where the upgrade reads as a
  category outside the allowed ones, the result is that of the keyword heuristic.
\<close>

theorem upgrade_escalation:
  assumes "api_key_set rt" and "first_fields rt log item = Some (''Misc'', norm)"
  shows "snd (ai_fallback_classify rt log item) =
           snd (first_response rt log (build_prompt item)) @ [upgrade_call rt (build_prompt item)] \<and>
         snd (upgrade_call rt (build_prompt item)) = build_prompt item \<and>
         ((\<forall>text. upgrade_outcome rt log item \<noteq> Responds text) \<longrightarrow>
            fst (ai_fallback_classify rt log item) = Inr (''Misc'', first_three_words norm)) \<and>
         (upgrade_outcome rt log item = Responds text \<and>
          parse_dict_from_ai_response rt text = Inr None \<longrightarrow>
            fst (ai_fallback_classify rt log item) = Inr (''Misc'', first_three_words norm)) \<and>
         (upgrade_outcome rt log item = Responds text \<and>
          parse_dict_from_ai_response rt text = Inr (Some d) \<and> \<not> truthy d \<longrightarrow>
            fst (ai_fallback_classify rt log item) = Inr (''Misc'', first_three_words norm)) \<and>
         (upgrade_outcome rt log item = Responds text \<and>
          parse_dict_from_ai_response rt text = Inr (Some d) \<and> truthy d \<and>
          response_fields d = Inr (''Misc'', norm') \<longrightarrow>
            fst (ai_fallback_classify rt log item) = Inr (''Misc'', first_three_words norm')) \<and>
         (upgrade_outcome rt log item = Responds text \<and>
          parse_dict_from_ai_response rt text = Inr (Some d) \<and> truthy d \<and>
          response_fields d = Inr (cat', norm') \<and> cat' \<notin> set ALLOWED_CATEGORIES \<longrightarrow>
            fst (ai_fallback_classify rt log item) = Inr (heuristic_classify item))"
proof -
  have misc: "''Misc'' \<in> set ALLOWED_CATEGORIES" by (simp add: ALLOWED_CATEGORIES_def)
  have t4: "take 4 ''Misc'' = ''Misc''" by simp
  note run = ai_fallback_classify_upgrade [OF assms t4]
  note upgrade_attempt_cases = upgrade_attempt_cases [OF first_fields_installed [OF assms(2)]]
  have a: "snd (ai_fallback_classify rt log item) =
           snd (first_response rt log (build_prompt item)) @ [upgrade_call rt (build_prompt item)]"
    unfolding run upgrade_attempt_cases
    by (simp split: genai_outcome.splits sum.splits option.splits prod.splits)
  have b: "snd (upgrade_call rt (build_prompt item)) = build_prompt item"
    by (simp add: upgrade_call_def)
  have c: "fst (ai_fallback_classify rt log item) = Inr (''Misc'', first_three_words norm)"
    if "\<forall>text. upgrade_outcome rt log item \<noteq> Responds text"
    using that misc unfolding run upgrade_attempt_cases upgrade_outcome_def
    by (simp split: genai_outcome.splits)
  have d1: "fst (ai_fallback_classify rt log item) = Inr (''Misc'', first_three_words norm)"
    if "upgrade_outcome rt log item = Responds text" "parse_dict_from_ai_response rt text = Inr None"
    using that misc unfolding run upgrade_attempt_cases upgrade_outcome_def by simp
  have d2: "fst (ai_fallback_classify rt log item) = Inr (''Misc'', first_three_words norm)"
    if "upgrade_outcome rt log item = Responds text"
       "parse_dict_from_ai_response rt text = Inr (Some d)" "\<not> truthy d"
    using that misc unfolding run upgrade_attempt_cases upgrade_outcome_def by simp
  have e: "fst (ai_fallback_classify rt log item) = Inr (''Misc'', first_three_words norm')"
    if "upgrade_outcome rt log item = Responds text"
       "parse_dict_from_ai_response rt text = Inr (Some d)" "truthy d"
       "response_fields d = Inr (''Misc'', norm')"
    using that misc unfolding run upgrade_attempt_cases upgrade_outcome_def by simp
  have f: "fst (ai_fallback_classify rt log item) = Inr (heuristic_classify item)"
    if "upgrade_outcome rt log item = Responds text"
       "parse_dict_from_ai_response rt text = Inr (Some d)" "truthy d"
       "response_fields d = Inr (cat', norm')" "cat' \<notin> set ALLOWED_CATEGORIES"
    using that unfolding run upgrade_attempt_cases upgrade_outcome_def by simp
  show ?thesis using a b c d1 d2 e f by blast
qed

lemma misc_key_set: "api_key_set rt_misc"
  by code_simp

lemma misc_first_fields: "first_fields rt_misc [] ''milk'' = Some (''Misc'', ''Milk'')"
  by code_simp

lemma misc_upgrade_outcome: "upgrade_outcome rt_misc [] ''milk'' = Responds (Some (fenced misc_json))"
  by (simp add: upgrade_outcome_def rt_misc_def)

lemma misc_upgrade_parse:
  "parse_dict_from_ai_response rt_misc (Some (fenced misc_json)) =
     Inr (Some (JDict [(''category'', JStr ''Misc''), (''normalized_name'', JStr ''Milk'')]))"
  by code_simp

lemma misc_upgrade_fields:
  "truthy (JDict [(''category'', JStr ''Misc''), (''normalized_name'', JStr ''Milk'')]) \<and>
   response_fields (JDict [(''category'', JStr ''Misc''), (''normalized_name'', JStr ''Milk'')])
     = Inr (''Misc'', ''Milk'')"
  by code_simp

lemma three_words_milk: "first_three_words ''Milk'' = ''Milk''"
  by code_simp

theorem upgrade_escalation_witness:
  "api_key_set rt_misc \<and> first_fields rt_misc [] ''milk'' = Some (''Misc'', ''Milk'') \<and>
   upgrade_outcome rt_misc [] ''milk'' = Responds (Some (fenced misc_json)) \<and>
   fst (ai_fallback_classify rt_misc [] ''milk'') = Inr (''Misc'', ''Milk'')"
  using upgrade_escalation [OF misc_key_set misc_first_fields,
      of "Some (fenced misc_json)"
         "JDict [(''category'', JStr ''Misc''), (''normalized_name'', JStr ''Milk'')]"
         "''Milk''" "''Misc''"]
    misc_key_set misc_first_fields misc_upgrade_outcome misc_upgrade_parse misc_upgrade_fields
    three_words_milk
  by simp

text \<open>
  Claim C6 as stated fails where the upgrade model names a category that is not allowed:
  for the item \<open>milk\<close> the run then returns \<open>Dairy\<close> from the keyword heuristic, not
  \<open>Misc\<close>.
\<close>

theorem upgrade_escalation_counterexample:
  "first_fields rt_toys [] ''milk'' = Some (''Misc'', ''Milk'') \<and>
   ai_fallback_classify rt_toys [] ''milk'' =
     (Inr (''Dairy'', ''Milk''),
      [(''gemini-2.5-flash'', build_prompt ''milk''), (''gemini-2.5-pro'', build_prompt ''milk'')])"
  by code_simp

section \<open>Grouping and ordering\<close>

lemma flatten_steps:
  "foldl flatten_step ({}, []) cats = (set cats, rev (remdups (rev cats)))"
  by (induction cats rule: rev_induct) (auto simp: flatten_step_def)

lemma flatten_zones:
  "foldl (\<lambda>sl (zone, cats). foldl flatten_step sl cats) sl db_layout
     = foldl flatten_step sl (concat (map snd db_layout))"
  by (induction db_layout arbitrary: sl) (auto simp: case_prod_beta)

lemma flatten_layout_first_seen:
  "flatten_layout db_layout = rev (remdups (rev (concat (map snd db_layout))))"
  by (simp add: flatten_layout_def flatten_zones flatten_steps)

lemma distinct_flatten_layout: "distinct (flatten_layout db_layout)"
  by (simp add: flatten_layout_first_seen)

lemma set_flatten_layout: "set (flatten_layout db_layout) = (\<Union>z \<in> set db_layout. set (snd z))"
  by (simp add: flatten_layout_first_seen)

lemma keys_dict_append:
  "map fst (dict_append d k v) = (if k \<in> set (map fst d) then map fst d else map fst d @ [k])"
proof (induction d)
  case Nil
  then show ?case by simp
next
  case (Cons p d)
  obtain k' vs where p: "p = (k', vs)" by (cases p)
  show ?case using Cons by (cases "k' = k") (simp_all add: p)
qed

lemma map_of_dict_append:
  "map_of (dict_append d k v) =
     (map_of d)(k \<mapsto> (case map_of d k of None \<Rightarrow> [v] | Some vs \<Rightarrow> vs @ [v]))"
  by (induction d) (auto simp: fun_eq_iff)

lemma grouped_items_dict_append:
  "grouped_items (dict_append d k v) c =
     (if c = k then grouped_items d k @ [v] else grouped_items d c)"
  by (simp add: grouped_items_def map_of_dict_append split: option.splits)

lemma grouped_fold:
  fixes resolved :: "(string \<times> string) list"
  defines "g \<equiv> foldl (\<lambda>d (cat, norm). dict_append d cat norm) [] resolved"
  shows "distinct (map fst g) \<and> set (map fst g) = fst ` set resolved \<and>
         (\<forall>c. grouped_items g c = names_of resolved c)"
  unfolding g_def
proof (induction resolved rule: rev_induct)
  case Nil
  then show ?case by (simp add: grouped_items_def names_of_def)
next
  case (snoc p resolved)
  obtain cat norm where p: "p = (cat, norm)" by (cases p)
  from snoc show ?case
    by (auto simp: p keys_dict_append grouped_items_dict_append names_of_def)
qed

lemma classify_items_resolve_all:
  "fst (classify_items rt items (grouped, st)) =
     foldl (\<lambda>d (cat, norm). dict_append d cat norm) grouped (resolve_all rt items st)"
  by (induction items arbitrary: grouped st) (auto split: prod.splits)

lemma comprehension_filter:
  "[f x. x \<leftarrow> xs, P x] = map f (filter P xs)"
  by (induction xs) auto

lemma sort_distinct: "distinct xs \<Longrightarrow> sort xs = sorted_list_of_set (set xs)"
  by (simp only: sorted_list_of_set_sort_remdups distinct_remdups_id)

lemma names_of_nonempty: "names_of resolved cat \<noteq> [] \<longleftrightarrow> cat \<in> fst ` set resolved"
  by (auto simp: names_of_def filter_empty_conv image_iff)

lemma build_output_eq:
  assumes "distinct (map fst grouped)"
  shows "build_output layout grouped =
           map (\<lambda>cat. (cat, grouped_items grouped cat))
             ([cat \<leftarrow> layout. cat \<in> set (map fst grouped)] @
              sorted_list_of_set {cat \<in> set (map fst grouped). cat \<notin> set layout})"
proof -
  have d: "distinct [c \<leftarrow> map fst grouped. c \<notin> set layout]"
    using assms by simp
  have "sort [c \<leftarrow> map fst grouped. c \<notin> set layout]
          = sorted_list_of_set (set [c \<leftarrow> map fst grouped. c \<notin> set layout])"
    using d by (rule sort_distinct)
  moreover have "set [c \<leftarrow> map fst grouped. c \<notin> set layout]
          = {cat \<in> set (map fst grouped). cat \<notin> set layout}"
    by auto
  ultimately have "sort [c \<leftarrow> map fst grouped. c \<notin> set layout]
          = sorted_list_of_set {cat \<in> set (map fst grouped). cat \<notin> set layout}"
    by (simp only:)
  then show ?thesis
    unfolding build_output_def Let_def comprehension_filter
    by (simp only: map_append map_ident)
qed

lemma order_items_in_eq:
  "fst (order_items_in rt db_layout items st) =
     map (\<lambda>cat. (cat, names_of (resolve_all rt items st) cat))
       ([cat \<leftarrow> flatten_layout db_layout. cat \<in> fst ` set (resolve_all rt items st)] @
        sorted_list_of_set {cat \<in> fst ` set (resolve_all rt items st).
                              cat \<notin> set (flatten_layout db_layout)})"
proof -
  let ?resolved = "resolve_all rt items st"
  let ?g = "foldl (\<lambda>d (cat, norm). dict_append d cat norm) [] ?resolved"
  have g: "distinct (map fst ?g)" "set (map fst ?g) = fst ` set ?resolved"
    "\<And>c. grouped_items ?g c = names_of ?resolved c"
    using grouped_fold [of ?resolved] by auto
  obtain grouped st' where c: "classify_items rt items ([], st) = (grouped, st')"
    by (cases "classify_items rt items ([], st)")
  have "grouped = ?g"
    using classify_items_resolve_all [of rt items "[]" st] c by simp
  then have "fst (order_items_in rt db_layout items st) = build_output (flatten_layout db_layout) ?g"
    by (simp add: order_items_in_def Let_def c)
  then show ?thesis
    unfolding build_output_eq [OF g(1)] g(2) by (simp add: g(3))
qed

text \<open>
  Claim C8. The groups come out as follows: first the categories of the flattened layout
  that some item resolved to, in the order of the flattened layout; then the other
  categories that some item resolved to (\<open>Misc\<close> among them), in ascending order of their
  labels. The flattened layout lists the categories of the zones in stored order, each at
  its first occurrence only. Each category that an item resolved to has exactly one group,
  with the names resolved to it in the order of the items, and no group is empty.
\<close>

theorem output_group_ordering:
  "fst (order_items_in rt db_layout items st) =
     map (\<lambda>cat. (cat, names_of (resolve_all rt items st) cat))
       ([cat \<leftarrow> flatten_layout db_layout. cat \<in> fst ` set (resolve_all rt items st)] @
        sorted_list_of_set {cat \<in> fst ` set (resolve_all rt items st).
                              cat \<notin> set (flatten_layout db_layout)}) \<and>
   flatten_layout db_layout = rev (remdups (rev (concat (map snd db_layout)))) \<and>
   set (map fst (fst (order_items_in rt db_layout items st))) = fst ` set (resolve_all rt items st) \<and>
   distinct (map fst (fst (order_items_in rt db_layout items st))) \<and>
   (\<forall>group \<in> set (fst (order_items_in rt db_layout items st)). snd group \<noteq> [])"
proof -
  let ?resolved = "resolve_all rt items st"
  let ?layout = "flatten_layout db_layout"
  let ?rest = "{cat \<in> fst ` set ?resolved. cat \<notin> set ?layout}"
  have fin: "finite ?rest" by simp
  have keys: "map fst (fst (order_items_in rt db_layout items st)) =
      [cat \<leftarrow> ?layout. cat \<in> fst ` set ?resolved] @ sorted_list_of_set ?rest"
    unfolding order_items_in_eq by (simp add: comp_def)
  have s: "set (map fst (fst (order_items_in rt db_layout items st))) = fst ` set ?resolved"
    unfolding keys using fin by auto
  have d: "distinct (map fst (fst (order_items_in rt db_layout items st)))"
    unfolding keys using fin distinct_flatten_layout [of db_layout] by auto
  have n: "\<forall>group \<in> set (fst (order_items_in rt db_layout items st)). snd group \<noteq> []"
  proof
    fix group assume m: "group \<in> set (fst (order_items_in rt db_layout items st))"
    then have "fst group \<in> fst ` set ?resolved" using s by force
    moreover have "snd group = names_of ?resolved (fst group)"
      using m unfolding order_items_in_eq by auto
    ultimately show "snd group \<noteq> []" by (simp add: names_of_nonempty)
  qed
  show ?thesis
    by (intro conjI) (fact order_items_in_eq flatten_layout_first_seen s d n)+
qed

lemma small_output:
  "fst (order_items_in rt_none small_layout
          [''salmon'', ''milk'', ''chips'', ''banana'', ''zebra'', ''greek yogurt''] (empty_cache, []))
     = [(''Produce'', [''Banana'']), (''Dairy'', [''Milk'', ''Greek Yogurt'']),
        (''Misc'', [''Zebra'']), (''Seafood'', [''Salmon'']), (''Snacks'', [''Chips''])]"
  by code_simp

theorem output_group_ordering_witness:
  "fst (order_items_in rt_none small_layout
          [''salmon'', ''milk'', ''chips'', ''banana'', ''zebra'', ''greek yogurt''] (empty_cache, []))
     = [(''Produce'', [''Banana'']), (''Dairy'', [''Milk'', ''Greek Yogurt'']),
        (''Misc'', [''Zebra'']), (''Seafood'', [''Salmon'']), (''Snacks'', [''Chips''])] \<and>
   [] \<notin> snd ` set (fst (order_items_in rt_none small_layout
          [''salmon'', ''milk'', ''chips'', ''banana'', ''zebra'', ''greek yogurt''] (empty_cache, [])))"
proof -
  have "\<forall>group \<in> set (fst (order_items_in rt_none small_layout
          [''salmon'', ''milk'', ''chips'', ''banana'', ''zebra'', ''greek yogurt''] (empty_cache, []))).
          snd group \<noteq> []"
    using output_group_ordering [of rt_none small_layout
          "[''salmon'', ''milk'', ''chips'', ''banana'', ''zebra'', ''greek yogurt'']" "(empty_cache, [])"]
    by (elim conjE)
  then have "[] \<notin> snd ` set (fst (order_items_in rt_none small_layout
          [''salmon'', ''milk'', ''chips'', ''banana'', ''zebra'', ''greek yogurt''] (empty_cache, [])))"
    by force
  then show ?thesis using small_output by (intro conjI)
qed

section \<open>The store layout\<close>

lemma zone_names_of_rows: "fst ` set (zones_of_rows rows) = fst ` set rows"
  using grouped_fold [of rows] by (simp add: zones_of_rows_def)

lemma zone_names_of_fetched:
  assumes "fetchall_of db store_id fetched"
  shows "fst ` set (layout_of_rows fetched) = (fst \<circ> snd) ` set (layout_join db store_id)"
proof -
  have "set fetched = set (layout_join db store_id)"
    using assms by (auto simp: fetchall_of_def dest: mset_eq_setD)
  then have "fst ` set (map snd fetched) = (fst \<circ> snd) ` set (layout_join db store_id)"
    by (simp add: image_comp)
  then show ?thesis
    by (simp only: layout_of_rows_def zone_names_of_rows)
qed

lemma two_locations_join:
  "layout_join two_locations 1 = [(1, ''Front'', ''Produce''), (1, ''Back'', ''Bakery'')]"
  by (simp add: layout_join_def two_locations_def)

lemma two_locations_id:
  "get_store_id two_locations ''S'' None = Inr 1 \<and>
   get_store_id two_locations ''S'' (Some ''22222'') = Inr 1"
  by (simp add: get_store_id_def two_locations_def)

text \<open>
  Claim C7. In the database \<open>two_locations\<close> the store \<open>S\<close> has two locations, the first with
  the zone \<open>Front\<close> and the second with the zone \<open>Back\<close>. Resolving \<open>S\<close> with no postal
  code gives the store id 1, and \<open>get_store_layout\<close> then returns the zones of both
  locations, in whichever order the engine gives the rows of equal \<open>zone_order\<close>; a postal
  code changes nothing. The result is the layout of neither location.
\<close>

theorem layout_merges_locations:
  assumes "fetchall_of two_locations 1 fetched"
  shows "get_store_layout two_locations None (Some ''S'') None fetched = Inr (layout_of_rows fetched) \<and>
         get_store_layout two_locations None (Some ''S'') (Some ''22222'') fetched
           = Inr (layout_of_rows fetched) \<and>
         set (map fst (layout_of_rows fetched)) = {''Front'', ''Back''} \<and>
         layout_of_rows fetched \<noteq> [(''Front'', [''Produce''])] \<and>
         layout_of_rows fetched \<noteq> [(''Back'', [''Bakery''])]"
proof -
  have names: "fst ` set (layout_of_rows fetched) = {''Front'', ''Back''}"
    using zone_names_of_fetched [OF assms] by (simp add: two_locations_join)
  have not_first: "layout_of_rows fetched \<noteq> [(''Front'', [''Produce''])]"
  proof
    assume "layout_of_rows fetched = [(''Front'', [''Produce''])]"
    then have "{''Front''} = {''Front'', ''Back''}" using names by simp
    then show False by simp
  qed
  have not_second: "layout_of_rows fetched \<noteq> [(''Back'', [''Bakery''])]"
  proof
    assume "layout_of_rows fetched = [(''Back'', [''Bakery''])]"
    then have "{''Back''} = {''Front'', ''Back''}" using names by simp
    then show False by simp
  qed
  have a: "get_store_layout two_locations None (Some ''S'') None fetched = Inr (layout_of_rows fetched)"
    using two_locations_id by (simp add: get_store_layout_def)
  have b: "get_store_layout two_locations None (Some ''S'') (Some ''22222'') fetched
           = Inr (layout_of_rows fetched)"
    using two_locations_id by (simp add: get_store_layout_def)
  have c: "set (map fst (layout_of_rows fetched)) = {''Front'', ''Back''}"
    using names by simp
  show ?thesis by (intro conjI) (fact a b c not_first not_second)+
qed

lemma two_locations_fetched:
  "fetchall_of two_locations 1 [(1, ''Front'', ''Produce''), (1, ''Back'', ''Bakery'')]"
  by (simp add: fetchall_of_def two_locations_join)

lemma two_locations_layout:
  "layout_of_rows [(1, ''Front'', ''Produce''), (1, ''Back'', ''Bakery'')]
     = [(''Front'', [''Produce'']), (''Back'', [''Bakery''])]"
  by (simp add: layout_of_rows_def zones_of_rows_def)

theorem layout_merges_locations_witness:
  "fetchall_of two_locations 1 [(1, ''Front'', ''Produce''), (1, ''Back'', ''Bakery'')] \<and>
   get_store_layout two_locations None (Some ''S'') None
       [(1, ''Front'', ''Produce''), (1, ''Back'', ''Bakery'')]
     = Inr [(''Front'', [''Produce'']), (''Back'', [''Bakery''])]"
  using layout_merges_locations [OF two_locations_fetched] two_locations_fetched two_locations_layout
  by simp

end
